theory Spec2Isabelle
  imports Complex_Main
begin

section \<open>Python strings\<close>

text \<open>
  A Python \<open>str\<close> is modelled as a \<^typ>\<open>string\<close>: a list of characters whose code points
  lie below 256. On that range \<open>str.lower\<close> shifts the letters A to Z and the
  upper-case letters of the Latin-1 block (0xC0 to 0xDE without the multiplication sign
  0xD7) by 32 and leaves every other character alone; \<open>str.isspace\<close> holds for the
  code points 0x09 to 0x0D, 0x1C to 0x20, 0x85 and 0xA0; \<open>str.strip\<close> removes the
  white space in front and at the end.
\<close>

definition lower_char :: "char \<Rightarrow> char" where
  "lower_char c =
     (let n = (of_char c :: nat)
      in if (65 \<le> n \<and> n \<le> 90) \<or> (192 \<le> n \<and> n \<le> 222 \<and> n \<noteq> 215)
         then char_of (n + 32) else c)"

definition lower :: "string \<Rightarrow> string" where
  "lower s = map lower_char s"

definition isspace :: "char \<Rightarrow> bool" where
  "isspace c =
     (let n = (of_char c :: nat)
      in (9 \<le> n \<and> n \<le> 13) \<or> (28 \<le> n \<and> n \<le> 32) \<or> n = 133 \<or> n = 160)"

definition strip :: "string \<Rightarrow> string" where
  "strip s = rev (dropWhile isspace (rev (dropWhile isspace s)))"

section \<open>game\_logic.py\<close>

datatype py_error = KeyError string

record GameState =
  round_number :: int
  user_score :: int
  bot_score :: int
  user_bomb_used :: bool
  bot_bomb_used :: bool
  game_over :: bool

text \<open>\<open>GameState()\<close>: the defaults of the dataclass.\<close>

definition new_GameState :: GameState where
  "new_GameState =
     \<lparr>round_number = 0, user_score = 0, bot_score = 0,
      user_bomb_used = False, bot_bomb_used = False, game_over = False\<rparr>"

definition move_names :: "string list" where
  "move_names = [''rock'', ''paper'', ''scissors'', ''bomb'']"

definition is_valid_move :: "string \<Rightarrow> bool" where
  "is_valid_move move = (lower move \<in> set move_names)"

definition normalize_move :: "string \<Rightarrow> string" where
  "normalize_move move = lower move"

definition can_use_bomb :: "string \<Rightarrow> GameState \<Rightarrow> bool" where
  "can_use_bomb player state =
     (if player = ''user'' then \<not> user_bomb_used state
      else if player = ''bot'' then \<not> bot_bomb_used state
      else False)"

text \<open>The dictionary \<open>wins\<close> of \<open>resolve_round\<close>; a key it lacks raises \<open>KeyError\<close>.\<close>

definition wins :: "(string \<times> string) list" where
  "wins = [(''rock'', ''scissors''), (''scissors'', ''paper''), (''paper'', ''rock'')]"

definition resolve_round :: "string \<Rightarrow> string \<Rightarrow> py_error + string" where
  "resolve_round user_move bot_move =
     (if user_move = bot_move then Inr ''draw''
      else if user_move = ''bomb'' \<and> bot_move = ''bomb'' then Inr ''draw''
      else if user_move = ''bomb'' then Inr ''user''
      else if bot_move = ''bomb'' then Inr ''bot''
      else case map_of wins user_move of
             None \<Rightarrow> Inl (KeyError user_move)
           | Some beaten \<Rightarrow> if beaten = bot_move then Inr ''user'' else Inr ''bot'')"

definition update_score :: "GameState \<Rightarrow> string \<Rightarrow> GameState" where
  "update_score state winner =
     (if winner = ''user'' then state\<lparr>user_score := user_score state + 1\<rparr>
      else if winner = ''bot'' then state\<lparr>bot_score := bot_score state + 1\<rparr>
      else state)"

definition mark_bomb_used :: "GameState \<Rightarrow> string \<Rightarrow> string \<Rightarrow> GameState" where
  "mark_bomb_used state player move =
     (if move = ''bomb''
      then (if player = ''user'' then state\<lparr>user_bomb_used := True\<rparr>
            else if player = ''bot'' then state\<lparr>bot_bomb_used := True\<rparr>
            else state)
      else state)"

definition is_game_over :: "GameState \<Rightarrow> bool" where
  "is_game_over state = (round_number state \<ge> 3)"

definition get_final_result :: "GameState \<Rightarrow> string" where
  "get_final_result state =
     (if user_score state > bot_score state then ''User wins''
      else if bot_score state > user_score state then ''Bot wins''
      else ''Draw'')"

section \<open>game\_tools.py\<close>

text \<open>
  The module keeps one global \<open>game_state\<close>; every tool takes it as an argument and
  returns it beside its result. What the tools draw from \<open>random\<close> is an argument too:
  \<open>draw1\<close> and \<open>draw2\<close> are the values of the two calls of \<open>random.random()\<close> (used
  only where the source reaches the call), and \<open>pick\<close> selects the element that
  \<open>random.choice\<close> returns, an index into the list it is given. The literal \<open>0.7\<close> is the
  double nearest to seven tenths.
\<close>

record entropy =
  draw1 :: rat
  draw2 :: rat
  pick :: nat

definition choice :: "nat \<Rightarrow> string list \<Rightarrow> string" where
  "choice k xs = xs ! (k mod length xs)"

definition get_bot_move :: "GameState \<Rightarrow> entropy \<Rightarrow> string" where
  "get_bot_move game_state rnd =
     (if \<not> bot_bomb_used game_state \<and> round_number game_state = 1 \<and> draw1 rnd > 1 / 2
      then ''bomb''
      else let available_moves = [''rock'', ''paper'', ''scissors''];
               available_moves =
                 (if \<not> bot_bomb_used game_state
                     \<and> draw2 rnd > 3152519739159347 / 4503599627370496
                  then available_moves @ [''bomb''] else available_moves)
           in choice (pick rnd) available_moves)"

record validation =
  valid :: bool
  move :: string
  reason :: string

definition validate_move :: "GameState \<Rightarrow> string \<Rightarrow> validation \<times> GameState" where
  "validate_move game_state user_input =
     (let user_input = lower (strip user_input)
      in if \<not> is_valid_move user_input
         then (\<lparr>valid = False, move = user_input,
                reason = ''Invalid move '' @ [CHR 0x27] @ user_input @ [CHR 0x27]
                           @ ''. Valid moves: rock, paper, scissors, bomb''\<rparr>, game_state)
         else let move = normalize_move user_input
              in if move = ''bomb'' \<and> \<not> can_use_bomb ''user'' game_state
                 then (\<lparr>valid = False, move = move,
                        reason = ''You have already used your bomb!''\<rparr>, game_state)
                 else (\<lparr>valid = True, move = move, reason = ''Valid move''\<rparr>, game_state))"

record round_report =
  rr_user_move :: string
  rr_bot_move :: string
  rr_winner :: string
  rr_user_score :: int
  rr_bot_score :: int
  rr_round :: int
  rr_game_over :: bool
  rr_user_bomb_available :: bool
  rr_bot_bomb_available :: bool

text \<open>
  \<open>resolve_round_tool\<close> marks the bombs in the global state before it calls
  \<open>resolve_round\<close>, so a \<open>KeyError\<close> raised there leaves the marks behind.
\<close>

definition resolve_round_tool ::
  "GameState \<Rightarrow> string \<Rightarrow> entropy \<Rightarrow> (py_error + round_report) \<times> GameState" where
  "resolve_round_tool game_state user_move rnd =
     (let bot_move = get_bot_move game_state rnd;
          game_state = mark_bomb_used game_state ''user'' user_move;
          game_state = mark_bomb_used game_state ''bot'' bot_move
      in case resolve_round user_move bot_move of
           Inl err \<Rightarrow> (Inl err, game_state)
         | Inr winner \<Rightarrow>
             let game_state = update_score game_state winner;
                 game_state = game_state\<lparr>round_number := round_number game_state + 1\<rparr>;
                 game_state = (if is_game_over game_state
                               then game_state\<lparr>game_over := True\<rparr> else game_state)
             in (Inr \<lparr>rr_user_move = user_move, rr_bot_move = bot_move, rr_winner = winner,
                      rr_user_score = user_score game_state,
                      rr_bot_score = bot_score game_state,
                      rr_round = round_number game_state,
                      rr_game_over = game_over game_state,
                      rr_user_bomb_available = (\<not> user_bomb_used game_state),
                      rr_bot_bomb_available = (\<not> bot_bomb_used game_state)\<rparr>, game_state))"

record snapshot =
  sn_round :: int
  sn_user_score :: int
  sn_bot_score :: int
  sn_user_bomb_available :: bool
  sn_bot_bomb_available :: bool
  sn_game_over :: bool

definition update_game_state_tool :: "GameState \<Rightarrow> string \<Rightarrow> snapshot \<times> GameState" where
  "update_game_state_tool game_state action =
     (let game_state = (if action = ''reset'' then new_GameState else game_state)
      in (\<lparr>sn_round = round_number game_state,
           sn_user_score = user_score game_state,
           sn_bot_score = bot_score game_state,
           sn_user_bomb_available = (\<not> user_bomb_used game_state),
           sn_bot_bomb_available = (\<not> bot_bomb_used game_state),
           sn_game_over = game_over game_state\<rparr>, game_state))"

definition reset_game :: "GameState \<Rightarrow> GameState" where
  "reset_game game_state = new_GameState"

section \<open>A match as a sequence of tool calls\<close>

text \<open>
  The callers reach the global state through \<open>resolve_round_tool\<close>,
  \<open>update_game_state_tool\<close> (which resets the state for the action \<open>reset\<close> and only
  reads it otherwise) and \<open>reset_game\<close>; \<open>validate_move\<close> leaves it alone. A history is a
  list of such calls, run from left to right on the state. A call of
  \<open>resolve_round_tool\<close> that raises keeps the bombs it has marked.
\<close>

datatype event = Resolve string entropy | Update string | Reset

fun step :: "GameState \<Rightarrow> event \<Rightarrow> GameState" where
  "step s (Resolve user_move rnd) = snd (resolve_round_tool s user_move rnd)"
| "step s (Update action) = snd (update_game_state_tool s action)"
| "step s Reset = reset_game s"

definition run :: "GameState \<Rightarrow> event list \<Rightarrow> GameState" where
  "run s es = foldl step s es"

fun canonical_event :: "event \<Rightarrow> bool" where
  "canonical_event (Resolve user_move rnd) = (user_move \<in> set move_names)"
| "canonical_event (Update action) = True"
| "canonical_event Reset = True"

fun is_reset :: "event \<Rightarrow> bool" where
  "is_reset (Resolve user_move rnd) = False"
| "is_reset (Update action) = (action = ''reset'')"
| "is_reset Reset = True"

definition state_invariant :: "GameState \<Rightarrow> bool" where
  "state_invariant s =
     (user_score s + bot_score s \<le> round_number s \<and> (game_over s = (round_number s \<ge> 3)))"

section \<open>The dominance relation of the specification\<close>

text \<open>
  The outcome of a round as the specification words it: equal moves draw; where exactly
  one side plays the bomb, that side wins; otherwise rock beats scissors, scissors beats
  paper and paper beats rock, and the side that is beaten loses. Where none of these
  applies there is no outcome.
\<close>

definition dominates :: "string \<Rightarrow> string \<Rightarrow> bool" where
  "dominates a b =
     ((a, b) \<in> {(''rock'', ''scissors''), (''scissors'', ''paper''), (''paper'', ''rock'')})"

definition reference_outcome :: "string \<Rightarrow> string \<Rightarrow> string option" where
  "reference_outcome user_move bot_move =
     (if user_move = bot_move then Some ''draw''
      else if user_move = ''bomb'' \<and> bot_move \<noteq> ''bomb'' then Some ''user''
      else if bot_move = ''bomb'' \<and> user_move \<noteq> ''bomb'' then Some ''bot''
      else if dominates user_move bot_move then Some ''user''
      else if dominates bot_move user_move then Some ''bot''
      else None)"

section \<open>Auxiliary facts\<close>

lemma move_names_cases:
  "m \<in> set move_names \<longleftrightarrow> m = ''rock'' \<or> m = ''paper'' \<or> m = ''scissors'' \<or> m = ''bomb''"
  by (simp add: move_names_def)

lemma of_char_lt_256: "(of_char c :: nat) < 256"
proof -
  have "(of_char c :: nat) mod 256 < 256" by (rule mod_less_divisor) simp
  then show ?thesis by (simp only: of_char_mod_256)
qed

lemma lower_char_idem: "lower_char (lower_char c) = lower_char c"
  using of_char_lt_256 [of c] by (auto simp add: lower_char_def Let_def)

lemma lower_idem: "lower (lower s) = lower s"
  by (simp add: lower_def lower_char_idem)

lemma choice_in: "xs \<noteq> [] \<Longrightarrow> choice k xs \<in> set xs"
  by (simp add: choice_def)

lemma get_bot_move_in: "get_bot_move s rnd \<in> set move_names"
proof -
  have "choice k [''rock'', ''paper'', ''scissors''] \<in> set move_names" for k
    using choice_in [of "[''rock'', ''paper'', ''scissors'']" k]
    by (auto simp add: move_names_def)
  moreover have "choice k ([''rock'', ''paper'', ''scissors''] @ [''bomb'']) \<in> set move_names"
    for k
    using choice_in [of "[''rock'', ''paper'', ''scissors''] @ [''bomb'']" k]
    by (auto simp add: move_names_def)
  ultimately show ?thesis
    by (simp add: get_bot_move_def Let_def move_names_cases [of "''bomb''"] del: append.simps)
qed

lemma get_bot_move_game_over: "get_bot_move (s\<lparr>game_over := b\<rparr>) rnd = get_bot_move s rnd"
  by (simp add: get_bot_move_def)

lemma resolve_round_total:
  assumes "user_move \<in> set move_names" and "bot_move \<in> set move_names"
  shows "\<exists>w. resolve_round user_move bot_move = Inr w \<and> w \<in> {''user'', ''bot'', ''draw''}"
  using assms unfolding move_names_cases
  by (elim disjE) (simp_all add: resolve_round_def wins_def)

lemma mark_bomb_used_game_over:
  "mark_bomb_used (s\<lparr>game_over := b\<rparr>) p m = (mark_bomb_used s p m)\<lparr>game_over := b\<rparr>"
  by (simp add: mark_bomb_used_def)

lemma update_score_game_over:
  "update_score (s\<lparr>game_over := b\<rparr>) w = (update_score s w)\<lparr>game_over := b\<rparr>"
  by (simp add: update_score_def)

lemma game_over_mark_bomb_used: "game_over (mark_bomb_used s p m) = game_over s"
  by (simp add: mark_bomb_used_def)

lemma game_over_update_score: "game_over (update_score s w) = game_over s"
  by (simp add: update_score_def)

lemma round_number_mark_bomb_used: "round_number (mark_bomb_used s p m) = round_number s"
  by (simp add: mark_bomb_used_def)

lemma round_number_update_score: "round_number (update_score s w) = round_number s"
  by (simp add: update_score_def)

lemma is_valid_move_lower: "is_valid_move (lower x) \<longleftrightarrow> lower x \<in> set move_names"
  by (simp add: is_valid_move_def lower_idem)

lemma normalize_move_lower: "normalize_move (lower x) = lower x"
  by (simp add: normalize_move_def lower_idem)

text \<open>
  What \<open>validate_move\<close> returns, by the trimmed and lower-cased input: \<open>is_valid_move\<close>
  and \<open>normalize_move\<close> lower it again, which changes nothing.
\<close>

lemma validate_move_unfold:
  "fst (validate_move s user_input) =
     (if lower (strip user_input) \<notin> set move_names
      then \<lparr>valid = False, move = lower (strip user_input),
             reason = ''Invalid move '' @ [CHR 0x27] @ lower (strip user_input) @ [CHR 0x27]
                        @ ''. Valid moves: rock, paper, scissors, bomb''\<rparr>
      else if lower (strip user_input) = ''bomb'' \<and> user_bomb_used s
      then \<lparr>valid = False, move = lower (strip user_input),
             reason = ''You have already used your bomb!''\<rparr>
      else \<lparr>valid = True, move = lower (strip user_input), reason = ''Valid move''\<rparr>)"
  by (simp add: validate_move_def Let_def is_valid_move_lower normalize_move_lower
      can_use_bomb_def)

lemma lower_strip_ROCK: "lower (strip ''  ROCK '') = ''rock''"
  by (simp add: lower_def strip_def lower_char_def isspace_def char_of_eq_iff)

lemma isspace_lower_char: "isspace (lower_char c) = isspace c"
  using of_char_lt_256 [of c] by (auto simp add: isspace_def lower_char_def Let_def)

lemma dropWhile_isspace_lower:
  "dropWhile isspace (map lower_char s) = map lower_char (dropWhile isspace s)"
  by (induction s) (simp_all add: isspace_lower_char)

lemma strip_lower: "strip (lower s) = lower (strip s)"
  by (simp only: strip_def lower_def dropWhile_isspace_lower rev_map)

lemma dropWhile_same_length: "length (dropWhile P xs) = length xs \<Longrightarrow> dropWhile P xs = xs"
proof (cases xs)
  case Nil
  then show ?thesis by simp
next
  case (Cons x ys)
  assume l: "length (dropWhile P xs) = length xs"
  show ?thesis
  proof (cases "P x")
    case True
    have "length (dropWhile P ys) \<le> length ys" by (rule length_dropWhile_le)
    with l True Cons show ?thesis by simp
  next
    case False
    with Cons show ?thesis by simp
  qed
qed

lemma strip_same_length: "length (strip s) = length s \<Longrightarrow> strip s = s"
proof -
  assume l: "length (strip s) = length s"
  have a: "length (strip s) \<le> length (dropWhile isspace s)"
    using length_dropWhile_le [of isspace "rev (dropWhile isspace s)"] by (simp add: strip_def)
  have b: "length (dropWhile isspace s) \<le> length s" by (rule length_dropWhile_le)
  from l a b have 1: "dropWhile isspace s = s"
    by (intro dropWhile_same_length) simp
  with l have "length (dropWhile isspace (rev s)) = length (rev s)" by (simp add: strip_def)
  then have "dropWhile isspace (rev s) = rev s" by (rule dropWhile_same_length)
  with 1 show ?thesis by (simp add: strip_def)
qed

lemma strip_move_names: "m \<in> set move_names \<Longrightarrow> strip m = m"
  unfolding move_names_cases
  by (elim disjE) (simp_all add: strip_def isspace_def)

lemma scores_mark_bomb_used:
  "user_score (mark_bomb_used s p m) = user_score s"
  "bot_score (mark_bomb_used s p m) = bot_score s"
  by (simp_all add: mark_bomb_used_def)

lemma scores_update_score:
  "user_score (update_score s w) + bot_score (update_score s w) \<le> user_score s + bot_score s + 1"
  by (simp add: update_score_def)

lemma flags_update_score:
  "user_bomb_used (update_score s w) = user_bomb_used s"
  "bot_bomb_used (update_score s w) = bot_bomb_used s"
  by (simp_all add: update_score_def)

lemma flags_mark_bomb_used:
  "user_bomb_used s \<Longrightarrow> user_bomb_used (mark_bomb_used s p m)"
  "bot_bomb_used s \<Longrightarrow> bot_bomb_used (mark_bomb_used s p m)"
  by (simp_all add: mark_bomb_used_def)

lemma resolve_round_tool_state:
  assumes "resolve_round user_move (get_bot_move s rnd) = Inr w"
  shows "snd (resolve_round_tool s user_move rnd) =
     (update_score
        (mark_bomb_used (mark_bomb_used s ''user'' user_move) ''bot'' (get_bot_move s rnd)) w)
     \<lparr>round_number := round_number s + 1,
       game_over := (game_over s \<or> round_number s + 1 \<ge> 3)\<rparr>"
proof -
  define t where
    "t = update_score
           (mark_bomb_used (mark_bomb_used s ''user'' user_move) ''bot'' (get_bot_move s rnd)) w"
  have gt: "game_over t = game_over s" and rt: "round_number t = round_number s"
    by (simp_all add: t_def game_over_update_score game_over_mark_bomb_used
        round_number_update_score round_number_mark_bomb_used)
  have "t\<lparr>round_number := round_number s + 1\<rparr> =
        t\<lparr>round_number := round_number s + 1, game_over := game_over s\<rparr>"
    using gt by simp
  then show ?thesis
    using rt gt
    by (simp add: resolve_round_tool_def Let_def assms t_def [symmetric] is_game_over_def)
qed

lemma step_invariant:
  assumes "state_invariant s" and "canonical_event e"
  shows "state_invariant (step s e)"
proof (cases e)
  case (Resolve user_move rnd)
  with assms(2) have "user_move \<in> set move_names" by simp
  then obtain w where w: "resolve_round user_move (get_bot_move s rnd) = Inr w"
    using resolve_round_total [OF _ get_bot_move_in] by blast
  define m where "m = mark_bomb_used (mark_bomb_used s ''user'' user_move) ''bot'' (get_bot_move s rnd)"
  have "user_score (update_score m w) + bot_score (update_score m w) \<le> user_score s + bot_score s + 1"
    using scores_update_score [of m w] by (simp add: m_def scores_mark_bomb_used)
  then show ?thesis
    using assms(1) unfolding Resolve step.simps resolve_round_tool_state [OF w] m_def [symmetric]
    by (auto simp add: state_invariant_def)
next
  case (Update action)
  then show ?thesis
    using assms(1)
    by (simp add: update_game_state_tool_def Let_def state_invariant_def new_GameState_def)
next
  case Reset
  then show ?thesis by (simp add: reset_game_def state_invariant_def new_GameState_def)
qed

lemma run_invariant:
  "state_invariant s \<Longrightarrow> list_all canonical_event es \<Longrightarrow> state_invariant (run s es)"
  unfolding run_def
  by (induction es arbitrary: s) (simp_all add: step_invariant)

lemma step_flags:
  assumes "canonical_event e" and "\<not> is_reset e"
  shows "(user_bomb_used s \<longrightarrow> user_bomb_used (step s e))
       \<and> (bot_bomb_used s \<longrightarrow> bot_bomb_used (step s e))"
proof (cases e)
  case (Resolve user_move rnd)
  with assms(1) have "user_move \<in> set move_names" by simp
  then obtain w where w: "resolve_round user_move (get_bot_move s rnd) = Inr w"
    using resolve_round_total [OF _ get_bot_move_in] by blast
  show ?thesis
    unfolding Resolve step.simps resolve_round_tool_state [OF w]
    by (simp add: flags_update_score flags_mark_bomb_used)
next
  case (Update action)
  with assms(2) show ?thesis by (simp add: update_game_state_tool_def Let_def)
next
  case Reset
  with assms(2) show ?thesis by simp
qed

lemma flags_mark_bomb_used_eq:
  "user_bomb_used (mark_bomb_used s p m) = (user_bomb_used s \<or> (m = ''bomb'' \<and> p = ''user''))"
  "bot_bomb_used (mark_bomb_used s p m) = (bot_bomb_used s \<or> (m = ''bomb'' \<and> p = ''bot''))"
  by (simp_all add: mark_bomb_used_def)

lemma scores_update_score_eq:
  "user_score (update_score s w) = user_score s + (if w = ''user'' then 1 else 0)"
  "bot_score (update_score s w) = bot_score s + (if w = ''bot'' then 1 else 0)"
  by (simp_all add: update_score_def)

lemma resolve_round_tool_game_over_flag:
  assumes "game_over s"
  shows "resolve_round_tool s user_move rnd =
           (case resolve_round_tool (s\<lparr>game_over := False\<rparr>) user_move rnd of
              (r, s') \<Rightarrow>
                (map_sum id (\<lambda>rep. rep\<lparr>rr_game_over := True\<rparr>) r,
                 s'\<lparr>game_over := True\<rparr>))"
proof (cases "resolve_round user_move (get_bot_move s rnd)")
  case (Inl err)
  define m where
    "m = mark_bomb_used (mark_bomb_used s ''user'' user_move) ''bot'' (get_bot_move s rnd)"
  have gm: "game_over m"
    using assms by (simp add: m_def game_over_mark_bomb_used)
  have m': "mark_bomb_used (mark_bomb_used (s\<lparr>game_over := False\<rparr>) ''user'' user_move) ''bot''
              (get_bot_move s rnd) = m\<lparr>game_over := False\<rparr>"
    by (simp add: m_def mark_bomb_used_game_over)
  have a: "resolve_round_tool s user_move rnd = (Inl err, m)"
    by (simp add: resolve_round_tool_def Let_def Inl m_def [symmetric])
  have b: "resolve_round_tool (s\<lparr>game_over := False\<rparr>) user_move rnd
             = (Inl err, m\<lparr>game_over := False\<rparr>)"
    by (simp add: resolve_round_tool_def Let_def get_bot_move_game_over Inl m')
  show ?thesis
    unfolding a b using gm by simp
next
  case (Inr w)
  define t where
    "t = update_score
           (mark_bomb_used (mark_bomb_used s ''user'' user_move) ''bot'' (get_bot_move s rnd)) w"
  have gt: "game_over t" and rt: "round_number t = round_number s"
    using assms
    by (simp_all add: t_def game_over_update_score game_over_mark_bomb_used
        round_number_update_score round_number_mark_bomb_used)
  have t': "update_score
           (mark_bomb_used (mark_bomb_used (s\<lparr>game_over := False\<rparr>) ''user'' user_move) ''bot''
              (get_bot_move s rnd)) w = t\<lparr>game_over := False\<rparr>"
    by (simp add: t_def mark_bomb_used_game_over update_score_game_over)
  have a: "resolve_round_tool s user_move rnd =
      (Inr \<lparr>rr_user_move = user_move, rr_bot_move = get_bot_move s rnd, rr_winner = w,
            rr_user_score = user_score t, rr_bot_score = bot_score t,
            rr_round = round_number s + 1, rr_game_over = True,
            rr_user_bomb_available = (\<not> user_bomb_used t),
            rr_bot_bomb_available = (\<not> bot_bomb_used t)\<rparr>,
       t\<lparr>round_number := round_number s + 1\<rparr>)"
    using gt rt
    by (simp add: resolve_round_tool_def Let_def Inr t_def [symmetric] is_game_over_def)
  have b: "resolve_round_tool (s\<lparr>game_over := False\<rparr>) user_move rnd =
      (Inr \<lparr>rr_user_move = user_move, rr_bot_move = get_bot_move s rnd, rr_winner = w,
            rr_user_score = user_score t, rr_bot_score = bot_score t,
            rr_round = round_number s + 1, rr_game_over = (round_number s + 1 \<ge> 3),
            rr_user_bomb_available = (\<not> user_bomb_used t),
            rr_bot_bomb_available = (\<not> bot_bomb_used t)\<rparr>,
       t\<lparr>round_number := round_number s + 1, game_over := (round_number s + 1 \<ge> 3)\<rparr>)"
    using rt
    by (simp add: resolve_round_tool_def Let_def get_bot_move_game_over Inr t' is_game_over_def)
  have c: "t\<lparr>round_number := round_number s + 1, game_over := True\<rparr>
             = t\<lparr>round_number := round_number s + 1\<rparr>"
    using gt by simp
  show ?thesis
    unfolding a b by (simp add: c)
qed

lemma resolve_round_tool_game_over_result:
  assumes "game_over s" and "resolve_round user_move (get_bot_move s rnd) = Inr w"
  shows "resolve_round_tool s user_move rnd =
      (Inr \<lparr>rr_user_move = user_move, rr_bot_move = get_bot_move s rnd, rr_winner = w,
            rr_user_score = user_score s + (if w = ''user'' then 1 else 0),
            rr_bot_score = bot_score s + (if w = ''bot'' then 1 else 0),
            rr_round = round_number s + 1, rr_game_over = True,
            rr_user_bomb_available = (\<not> (user_bomb_used s \<or> user_move = ''bomb'')),
            rr_bot_bomb_available = (\<not> (bot_bomb_used s \<or> get_bot_move s rnd = ''bomb''))\<rparr>,
       \<lparr>round_number = round_number s + 1,
         user_score = user_score s + (if w = ''user'' then 1 else 0),
         bot_score = bot_score s + (if w = ''bot'' then 1 else 0),
         user_bomb_used = (user_bomb_used s \<or> user_move = ''bomb''),
         bot_bomb_used = (bot_bomb_used s \<or> get_bot_move s rnd = ''bomb''),
         game_over = True\<rparr>)"
proof -
  define t where
    "t = update_score
           (mark_bomb_used (mark_bomb_used s ''user'' user_move) ''bot'' (get_bot_move s rnd)) w"
  have gt: "game_over t" and rt: "round_number t = round_number s"
    using assms(1)
    by (simp_all add: t_def game_over_update_score game_over_mark_bomb_used
        round_number_update_score round_number_mark_bomb_used)
  have us: "user_score t = user_score s + (if w = ''user'' then 1 else 0)"
    and bs: "bot_score t = bot_score s + (if w = ''bot'' then 1 else 0)"
    unfolding t_def scores_update_score_eq by (simp_all add: scores_mark_bomb_used)
  have ub: "user_bomb_used t = (user_bomb_used s \<or> user_move = ''bomb'')"
    and bb: "bot_bomb_used t = (bot_bomb_used s \<or> get_bot_move s rnd = ''bomb'')"
    unfolding t_def flags_update_score by (simp_all add: flags_mark_bomb_used_eq)
  have e: "t\<lparr>round_number := round_number s + 1\<rparr> =
       \<lparr>round_number = round_number s + 1,
         user_score = user_score s + (if w = ''user'' then 1 else 0),
         bot_score = bot_score s + (if w = ''bot'' then 1 else 0),
         user_bomb_used = (user_bomb_used s \<or> user_move = ''bomb''),
         bot_bomb_used = (bot_bomb_used s \<or> get_bot_move s rnd = ''bomb''),
         game_over = True\<rparr>"
    by (rule GameState.equality) (simp_all add: us bs ub bb gt)
  have a: "resolve_round_tool s user_move rnd =
      (Inr \<lparr>rr_user_move = user_move, rr_bot_move = get_bot_move s rnd, rr_winner = w,
            rr_user_score = user_score t, rr_bot_score = bot_score t,
            rr_round = round_number s + 1, rr_game_over = True,
            rr_user_bomb_available = (\<not> user_bomb_used t),
            rr_bot_bomb_available = (\<not> bot_bomb_used t)\<rparr>,
       t\<lparr>round_number := round_number s + 1\<rparr>)"
    using gt rt
    by (simp add: resolve_round_tool_def Let_def assms(2) t_def [symmetric] is_game_over_def)
  show ?thesis
    unfolding a e by (simp only: us bs ub bb)
qed


section \<open>Round resolution\<close>

text \<open>
  C1. On the sixteen pairs of canonical moves \<open>resolve_round\<close> raises nothing and returns
  the outcome of the specification's dominance relation, which is defined on each of
  them: a draw for equal moves (bomb against bomb too), the side that alone plays the
  bomb, and otherwise the winner of rock over scissors, scissors over paper, paper over
  rock.
\<close>

theorem resolve_round_reference:
  assumes "user_move \<in> set move_names" and "bot_move \<in> set move_names"
  shows "\<exists>w. reference_outcome user_move bot_move = Some w
             \<and> resolve_round user_move bot_move = Inr w
             \<and> w \<in> {''user'', ''bot'', ''draw''}"
  using assms unfolding move_names_cases
  by (elim disjE)
     (simp_all add: reference_outcome_def dominates_def resolve_round_def wins_def)

theorem resolve_round_reference_witness:
  "''bomb'' \<in> set move_names \<and> ''rock'' \<in> set move_names
   \<and> reference_outcome ''bomb'' ''rock'' = Some ''user''
   \<and> resolve_round ''bomb'' ''rock'' = Inr ''user''"
proof -
  have u: "''bomb'' \<in> set move_names" and b: "''rock'' \<in> set move_names"
    by (simp_all add: move_names_def)
  show ?thesis
    using u b resolve_round_reference [OF u b] by (simp add: reference_outcome_def)
qed

text \<open>
  C3. A round resolved while \<open>game_over\<close> is already set is not rejected. With a
  canonical move nothing is raised and the tool returns its report: a bomb played by
  either side sets that side's flag, the winner's score grows by one and no other score
  changes, and \<open>round_number\<close> grows by exactly one; the state is the one that
  \<open>mark_bomb_used\<close>, \<open>update_score\<close> and the increment give. For every move string
  the result is the one the same state with the flag cleared gives, apart from the flag
  itself, which stays set.
\<close>

theorem resolve_round_tool_after_game_over:
  assumes "game_over s"
  shows "(user_move \<in> set move_names \<longrightarrow>
           (\<exists>w. resolve_round user_move (get_bot_move s rnd) = Inr w
              \<and> (\<exists>rep. fst (resolve_round_tool s user_move rnd) = Inr rep)
              \<and> resolve_round_tool s user_move rnd =
                  (Inr \<lparr>rr_user_move = user_move, rr_bot_move = get_bot_move s rnd,
                        rr_winner = w,
                        rr_user_score = user_score s + (if w = ''user'' then 1 else 0),
                        rr_bot_score = bot_score s + (if w = ''bot'' then 1 else 0),
                        rr_round = round_number s + 1, rr_game_over = True,
                        rr_user_bomb_available =
                          (\<not> (user_bomb_used s \<or> user_move = ''bomb'')),
                        rr_bot_bomb_available =
                          (\<not> (bot_bomb_used s \<or> get_bot_move s rnd = ''bomb''))\<rparr>,
                   \<lparr>round_number = round_number s + 1,
                     user_score = user_score s + (if w = ''user'' then 1 else 0),
                     bot_score = bot_score s + (if w = ''bot'' then 1 else 0),
                     user_bomb_used = (user_bomb_used s \<or> user_move = ''bomb''),
                     bot_bomb_used = (bot_bomb_used s \<or> get_bot_move s rnd = ''bomb''),
                     game_over = True\<rparr>)
              \<and> snd (resolve_round_tool s user_move rnd) =
                  (update_score
                     (mark_bomb_used (mark_bomb_used s ''user'' user_move) ''bot''
                        (get_bot_move s rnd)) w)
                  \<lparr>round_number := round_number s + 1\<rparr>
              \<and> round_number (snd (resolve_round_tool s user_move rnd)) = round_number s + 1
              \<and> (user_move = ''bomb'' \<longrightarrow>
                    user_bomb_used (snd (resolve_round_tool s user_move rnd)))
              \<and> (get_bot_move s rnd = ''bomb'' \<longrightarrow>
                    bot_bomb_used (snd (resolve_round_tool s user_move rnd)))))
         \<and> resolve_round_tool s user_move rnd =
             (case resolve_round_tool (s\<lparr>game_over := False\<rparr>) user_move rnd of
                (r, s') \<Rightarrow>
                  (map_sum id (\<lambda>rep. rep\<lparr>rr_game_over := True\<rparr>) r,
                   s'\<lparr>game_over := True\<rparr>))"
proof (intro conjI impI)
  assume u: "user_move \<in> set move_names"
  obtain w where w: "resolve_round user_move (get_bot_move s rnd) = Inr w"
    using resolve_round_total [OF u get_bot_move_in] by blast
  note r = resolve_round_tool_game_over_result [OF assms w]
  have st: "snd (resolve_round_tool s user_move rnd) =
              (update_score
                 (mark_bomb_used (mark_bomb_used s ''user'' user_move) ''bot''
                    (get_bot_move s rnd)) w)
              \<lparr>round_number := round_number s + 1\<rparr>"
    unfolding resolve_round_tool_state [OF w]
    by (rule GameState.equality)
       (simp_all add: assms game_over_update_score game_over_mark_bomb_used)
  show "\<exists>w. resolve_round user_move (get_bot_move s rnd) = Inr w
              \<and> (\<exists>rep. fst (resolve_round_tool s user_move rnd) = Inr rep)
              \<and> resolve_round_tool s user_move rnd =
                  (Inr \<lparr>rr_user_move = user_move, rr_bot_move = get_bot_move s rnd,
                        rr_winner = w,
                        rr_user_score = user_score s + (if w = ''user'' then 1 else 0),
                        rr_bot_score = bot_score s + (if w = ''bot'' then 1 else 0),
                        rr_round = round_number s + 1, rr_game_over = True,
                        rr_user_bomb_available =
                          (\<not> (user_bomb_used s \<or> user_move = ''bomb'')),
                        rr_bot_bomb_available =
                          (\<not> (bot_bomb_used s \<or> get_bot_move s rnd = ''bomb''))\<rparr>,
                   \<lparr>round_number = round_number s + 1,
                     user_score = user_score s + (if w = ''user'' then 1 else 0),
                     bot_score = bot_score s + (if w = ''bot'' then 1 else 0),
                     user_bomb_used = (user_bomb_used s \<or> user_move = ''bomb''),
                     bot_bomb_used = (bot_bomb_used s \<or> get_bot_move s rnd = ''bomb''),
                     game_over = True\<rparr>)
              \<and> snd (resolve_round_tool s user_move rnd) =
                  (update_score
                     (mark_bomb_used (mark_bomb_used s ''user'' user_move) ''bot''
                        (get_bot_move s rnd)) w)
                  \<lparr>round_number := round_number s + 1\<rparr>
              \<and> round_number (snd (resolve_round_tool s user_move rnd)) = round_number s + 1
              \<and> (user_move = ''bomb'' \<longrightarrow>
                    user_bomb_used (snd (resolve_round_tool s user_move rnd)))
              \<and> (get_bot_move s rnd = ''bomb'' \<longrightarrow>
                    bot_bomb_used (snd (resolve_round_tool s user_move rnd)))"
  proof (intro exI [of _ w] conjI)
    show "resolve_round user_move (get_bot_move s rnd) = Inr w" by (rule w)
    show "\<exists>rep. fst (resolve_round_tool s user_move rnd) = Inr rep" by (simp add: r)
    show "snd (resolve_round_tool s user_move rnd) =
              (update_score
                 (mark_bomb_used (mark_bomb_used s ''user'' user_move) ''bot''
                    (get_bot_move s rnd)) w)
              \<lparr>round_number := round_number s + 1\<rparr>" by (rule st)
    show "round_number (snd (resolve_round_tool s user_move rnd)) = round_number s + 1"
      by (simp add: r)
    have "user_bomb_used (snd (resolve_round_tool s user_move rnd))
            = (user_bomb_used s \<or> user_move = ''bomb'')"
      by (simp add: r)
    then show "user_move = ''bomb'' \<longrightarrow>
            user_bomb_used (snd (resolve_round_tool s user_move rnd))"
      by blast
    have "bot_bomb_used (snd (resolve_round_tool s user_move rnd))
            = (bot_bomb_used s \<or> get_bot_move s rnd = ''bomb'')"
      by (simp add: r)
    then show "get_bot_move s rnd = ''bomb'' \<longrightarrow>
            bot_bomb_used (snd (resolve_round_tool s user_move rnd))"
      by blast
  qed (rule r)
next
  show "resolve_round_tool s user_move rnd =
             (case resolve_round_tool (s\<lparr>game_over := False\<rparr>) user_move rnd of
                (r, s') \<Rightarrow>
                  (map_sum id (\<lambda>rep. rep\<lparr>rr_game_over := True\<rparr>) r,
                   s'\<lparr>game_over := True\<rparr>))"
    using assms by (rule resolve_round_tool_game_over_flag)
qed

theorem resolve_round_tool_after_game_over_witness:
  "''bomb'' \<in> set move_names \<and> ''paper'' \<in> set move_names
   \<and> game_over \<lparr>round_number = 3, user_score = 2, bot_score = 1, user_bomb_used = False,
        bot_bomb_used = False, game_over = True\<rparr>
   \<and> snd (resolve_round_tool
        \<lparr>round_number = 3, user_score = 2, bot_score = 1, user_bomb_used = False,
          bot_bomb_used = False, game_over = True\<rparr>
        ''bomb'' \<lparr>draw1 = 0, draw2 = 0, pick = 0\<rparr>)
     = \<lparr>round_number = 4, user_score = 3, bot_score = 1, user_bomb_used = True,
         bot_bomb_used = False, game_over = True\<rparr>
   \<and> snd (resolve_round_tool
        \<lparr>round_number = 3, user_score = 2, bot_score = 1, user_bomb_used = False,
          bot_bomb_used = False, game_over = True\<rparr>
        ''paper'' \<lparr>draw1 = 0, draw2 = 4 / 5, pick = 3\<rparr>)
     = \<lparr>round_number = 4, user_score = 2, bot_score = 2, user_bomb_used = False,
         bot_bomb_used = True, game_over = True\<rparr>"
proof -
  let ?s = "\<lparr>round_number = 3, user_score = 2, bot_score = 1, user_bomb_used = False,
              bot_bomb_used = False, game_over = True\<rparr>"
  let ?e = "\<lparr>draw1 = 0, draw2 = 0, pick = 0\<rparr>"
  let ?f = "\<lparr>draw1 = 0, draw2 = 4 / 5, pick = 3\<rparr>"
  have u: "''bomb'' \<in> set move_names" and p: "''paper'' \<in> set move_names"
    by (simp_all add: move_names_def)
  have g: "game_over ?s" by simp
  have be: "get_bot_move ?s ?e = ''rock''" by code_simp
  have bf: "get_bot_move ?s ?f = ''bomb''" by code_simp
  have re: "resolve_round ''bomb'' ''rock'' = Inr ''user''" by code_simp
  have rf: "resolve_round ''paper'' ''bomb'' = Inr ''bot''" by code_simp
  have 1: "snd (resolve_round_tool ?s ''bomb'' ?e)
             = \<lparr>round_number = 4, user_score = 3, bot_score = 1, user_bomb_used = True,
                 bot_bomb_used = False, game_over = True\<rparr>"
    using u resolve_round_tool_after_game_over [OF g, of "''bomb''" ?e]
    unfolding be re by auto
  have 2: "snd (resolve_round_tool ?s ''paper'' ?f)
             = \<lparr>round_number = 4, user_score = 2, bot_score = 2, user_bomb_used = False,
                 bot_bomb_used = True, game_over = True\<rparr>"
    using p resolve_round_tool_after_game_over [OF g, of "''paper''" ?f]
    unfolding bf rf by auto
  from u p g 1 2 show ?thesis by simp
qed

section \<open>Invariants of a match\<close>

text \<open>
  C2, amended. In every state reached from the initial state by a history of round
  resolutions with canonical moves, state queries and resets, the two scores add up to at
  most \<open>round_number\<close> and \<open>game_over\<close> holds exactly when \<open>round_number\<close> is at least
  3. From such a state a round resolution or a state query never clears a bomb flag that
  is set; a reset replaces the state by the initial one, both flags clear.
\<close>

theorem reachable_invariant:
  assumes "list_all canonical_event es" and "canonical_event e"
  shows "(let s = run new_GameState es
          in user_score s + bot_score s \<le> round_number s
             \<and> (game_over s \<longleftrightarrow> round_number s \<ge> 3)
             \<and> (\<not> is_reset e \<longrightarrow>
                  (user_bomb_used s \<longrightarrow> user_bomb_used (step s e))
                  \<and> (bot_bomb_used s \<longrightarrow> bot_bomb_used (step s e)))
             \<and> (is_reset e \<longrightarrow> step s e = new_GameState))"
proof -
  have "state_invariant new_GameState"
    by (simp add: state_invariant_def new_GameState_def)
  then have i: "state_invariant (run new_GameState es)"
    using assms(1) by (rule run_invariant)
  have r: "is_reset e \<Longrightarrow> step s e = new_GameState" for s
    by (cases e) (simp_all add: update_game_state_tool_def reset_game_def)
  show ?thesis
    using i r step_flags [OF assms(2), of "run new_GameState es"]
    by (simp add: Let_def state_invariant_def)
qed

theorem reachable_invariant_witness:
  "list_all canonical_event
     [Resolve ''rock'' \<lparr>draw1 = 0, draw2 = 0, pick = 2\<rparr>,
      Resolve ''bomb'' \<lparr>draw1 = 0, draw2 = 0, pick = 1\<rparr>,
      Resolve ''paper'' \<lparr>draw1 = 0, draw2 = 4 / 5, pick = 3\<rparr>]
   \<and> run new_GameState
       [Resolve ''rock'' \<lparr>draw1 = 0, draw2 = 0, pick = 2\<rparr>,
        Resolve ''bomb'' \<lparr>draw1 = 0, draw2 = 0, pick = 1\<rparr>,
        Resolve ''paper'' \<lparr>draw1 = 0, draw2 = 4 / 5, pick = 3\<rparr>]
     = \<lparr>round_number = 3, user_score = 2, bot_score = 1, user_bomb_used = True,
         bot_bomb_used = True, game_over = True\<rparr>
   \<and> user_bomb_used
       (step \<lparr>round_number = 3, user_score = 2, bot_score = 1, user_bomb_used = True,
               bot_bomb_used = True, game_over = True\<rparr>
          (Resolve ''rock'' \<lparr>draw1 = 0, draw2 = 0, pick = 0\<rparr>))
   \<and> step \<lparr>round_number = 3, user_score = 2, bot_score = 1, user_bomb_used = True,
             bot_bomb_used = True, game_over = True\<rparr> Reset = new_GameState"
proof -
  let ?es = "[Resolve ''rock'' \<lparr>draw1 = 0, draw2 = 0, pick = 2\<rparr>,
              Resolve ''bomb'' \<lparr>draw1 = 0, draw2 = 0, pick = 1\<rparr>,
              Resolve ''paper'' \<lparr>draw1 = 0, draw2 = 4 / 5, pick = 3\<rparr>]"
  let ?e = "Resolve ''rock'' \<lparr>draw1 = 0, draw2 = 0, pick = 0\<rparr>"
  have c: "list_all canonical_event ?es" by code_simp
  have e: "canonical_event ?e" and e': "canonical_event Reset" by code_simp+
  have s: "run new_GameState ?es
             = \<lparr>round_number = 3, user_score = 2, bot_score = 1, user_bomb_used = True,
                 bot_bomb_used = True, game_over = True\<rparr>"
    by code_simp
  show ?thesis
    using c s reachable_invariant [OF c e] reachable_invariant [OF c e']
    by (simp add: Let_def)
qed

text \<open>
  As stated, with resets among the steps, the claim fails: the user's bomb flag is set
  after a round played with the bomb and clear again after the reset that follows.
\<close>

theorem bomb_flag_reset_counterexample:
  "list_all canonical_event [Resolve ''bomb'' \<lparr>draw1 = 0, draw2 = 0, pick = 0\<rparr>, Reset]
   \<and> user_bomb_used (run new_GameState [Resolve ''bomb'' \<lparr>draw1 = 0, draw2 = 0, pick = 0\<rparr>])
   \<and> \<not> user_bomb_used
         (run new_GameState [Resolve ''bomb'' \<lparr>draw1 = 0, draw2 = 0, pick = 0\<rparr>, Reset])"
  by code_simp

section \<open>State updates and queries\<close>

text \<open>
  C6. \<open>update_score\<close> with outcome \<open>user\<close> adds exactly one to \<open>user_score\<close>, with
  outcome \<open>bot\<close> exactly one to \<open>bot_score\<close>, and with \<open>draw\<close> it returns the state as it
  is; every other field (the other score, \<open>round_number\<close>, both bomb flags, \<open>game_over\<close>)
  keeps its value.
\<close>

theorem update_score_effect:
  "update_score s ''user'' = s\<lparr>user_score := user_score s + 1\<rparr>
   \<and> update_score s ''bot'' = s\<lparr>bot_score := bot_score s + 1\<rparr>
   \<and> update_score s ''draw'' = s"
  by (simp add: update_score_def)

text \<open>
  C7. \<open>mark_bomb_used\<close> with move \<open>bomb\<close> sets the flag of the player named and nothing
  else; marking twice gives the state that marking once gives; with any other move the
  state is returned unchanged, whatever the player identifier.
\<close>

theorem mark_bomb_used_effect:
  "mark_bomb_used s ''user'' ''bomb'' = s\<lparr>user_bomb_used := True\<rparr>
   \<and> mark_bomb_used s ''bot'' ''bomb'' = s\<lparr>bot_bomb_used := True\<rparr>
   \<and> mark_bomb_used (mark_bomb_used s player ''bomb'') player ''bomb''
       = mark_bomb_used s player ''bomb''
   \<and> (mv \<noteq> ''bomb'' \<longrightarrow> mark_bomb_used s player mv = s)"
  by (simp add: mark_bomb_used_def)

theorem mark_bomb_used_effect_witness:
  "''rock'' \<noteq> ''bomb''
   \<and> mark_bomb_used new_GameState ''bot'' ''rock'' = new_GameState
   \<and> user_bomb_used
        (mark_bomb_used (mark_bomb_used new_GameState ''user'' ''bomb'') ''user'' ''bomb'')"
  using mark_bomb_used_effect [of new_GameState "''user''" "''rock''"]
    mark_bomb_used_effect [of new_GameState "''bot''" "''rock''"]
  by simp

text \<open>
  C8. Whatever \<open>round_number\<close> and \<open>game_over\<close> are, \<open>get_final_result\<close> compares the two
  scores: \<open>User wins\<close> for the larger user score, \<open>Bot wins\<close> for the larger bot score,
  \<open>Draw\<close> for equal scores.
\<close>

theorem get_final_result_cases:
  "(user_score s > bot_score s \<longrightarrow> get_final_result s = ''User wins'')
   \<and> (bot_score s > user_score s \<longrightarrow> get_final_result s = ''Bot wins'')
   \<and> (user_score s = bot_score s \<longrightarrow> get_final_result s = ''Draw'')"
  by (simp add: get_final_result_def)

theorem get_final_result_cases_witness:
  "get_final_result (new_GameState\<lparr>round_number := 1, user_score := 1\<rparr>) = ''User wins''
   \<and> get_final_result (new_GameState\<lparr>round_number := 1, bot_score := 1\<rparr>) = ''Bot wins''
   \<and> get_final_result new_GameState = ''Draw''"
  using get_final_result_cases [of "new_GameState\<lparr>round_number := 1, user_score := 1\<rparr>"]
    get_final_result_cases [of "new_GameState\<lparr>round_number := 1, bot_score := 1\<rparr>"]
    get_final_result_cases [of new_GameState]
  by (simp add: new_GameState_def)

text \<open>
  C9. \<open>can_use_bomb\<close> for \<open>user\<close> is the negation of \<open>user_bomb_used\<close>, for \<open>bot\<close> the
  negation of \<open>bot_bomb_used\<close>, and false for every other player identifier; it has no
  path that raises.
\<close>

theorem can_use_bomb_cases:
  "can_use_bomb ''user'' s = (\<not> user_bomb_used s)
   \<and> can_use_bomb ''bot'' s = (\<not> bot_bomb_used s)
   \<and> (player \<noteq> ''user'' \<and> player \<noteq> ''bot'' \<longrightarrow> can_use_bomb player s = False)"
  by (simp add: can_use_bomb_def)

theorem can_use_bomb_cases_witness:
  "''referee'' \<noteq> ''user'' \<and> ''referee'' \<noteq> ''bot''
   \<and> can_use_bomb ''referee'' new_GameState = False
   \<and> can_use_bomb ''user'' new_GameState"
  using can_use_bomb_cases [of new_GameState "''referee''"]
  by (simp add: new_GameState_def)

section \<open>Validation\<close>

text \<open>
  C5, amended. \<open>is_valid_move\<close> lowers its argument and does not trim it: it holds
  exactly when the input has no white space in front or at the end and its lower-cased
  form is one of the four move names. It is \<open>validate_move\<close> that trims, before the
  call.
\<close>

theorem is_valid_move_untrimmed:
  "is_valid_move raw \<longleftrightarrow> strip raw = raw \<and> lower (strip raw) \<in> set move_names"
proof
  assume "is_valid_move raw"
  then have m: "lower raw \<in> set move_names" by (simp add: is_valid_move_def)
  then have "strip (lower raw) = lower raw" by (rule strip_move_names)
  then have e: "lower (strip raw) = lower raw" by (simp add: strip_lower)
  then have "length (lower (strip raw)) = length (lower raw)" by simp
  then have "length (strip raw) = length raw" by (simp add: lower_def)
  then have "strip raw = raw" by (rule strip_same_length)
  with m show "strip raw = raw \<and> lower (strip raw) \<in> set move_names" by simp
next
  assume a: "strip raw = raw \<and> lower (strip raw) \<in> set move_names"
  from a have s: "strip raw = raw" by (rule conjunct1)
  from a have "lower (strip raw) \<in> set move_names" by (rule conjunct2)
  then have "lower raw \<in> set move_names" unfolding s .
  then show "is_valid_move raw" by (simp add: is_valid_move_def)
qed

theorem is_valid_move_untrimmed_witness:
  "is_valid_move ''RoCk'' \<and> \<not> is_valid_move ''rock ''"
proof -
  have a: "strip ''RoCk'' = ''RoCk''" by code_simp
  have b: "lower ''RoCk'' = ''rock''" by code_simp
  have c: "strip ''rock '' \<noteq> ''rock ''" by code_simp
  show ?thesis
    using is_valid_move_untrimmed [of "''RoCk''"] is_valid_move_untrimmed [of "''rock ''"]
    by (simp add: a b c move_names_def)
qed

text \<open>
  As stated, with trimming, the claim fails: \<open>rock\<close> between blanks trims and lowers to a
  move name, and \<open>is_valid_move\<close> rejects it.
\<close>

theorem is_valid_move_trimmed_counterexample:
  "\<not> (is_valid_move ''  rock '' \<longleftrightarrow> lower (strip ''  rock '') \<in> set move_names)"
  by code_simp

text \<open>
  C4. \<open>validate_move\<close> has no path that raises and returns a result on every input
  string. With \<open>n\<close> the trimmed, lower-cased input: if \<open>n\<close> is a move name and is not
  \<open>bomb\<close>, or the user's bomb flag is clear, the result is valid with move \<open>n\<close>; if \<open>n\<close>
  is no move name, the result is invalid with the reason that quotes \<open>n\<close> and names the
  four valid moves; if \<open>n\<close> is \<open>bomb\<close> and the user's bomb flag is set, the result is
  invalid with the reason that the bomb was already used. The input \<open>ROCK\<close> between
  blanks is accepted as \<open>rock\<close>.
\<close>

theorem validate_move_result:
  "(let n = lower (strip user_input); r = fst (validate_move s user_input)
    in (n \<in> set move_names \<and> (n \<noteq> ''bomb'' \<or> \<not> user_bomb_used s)
          \<longrightarrow> r = \<lparr>valid = True, move = n, reason = ''Valid move''\<rparr>)
       \<and> (n \<notin> set move_names
          \<longrightarrow> r = \<lparr>valid = False, move = n,
                   reason = ''Invalid move '' @ [CHR 0x27] @ n @ [CHR 0x27]
                              @ ''. Valid moves: rock, paper, scissors, bomb''\<rparr>)
       \<and> (n = ''bomb'' \<and> user_bomb_used s
          \<longrightarrow> r = \<lparr>valid = False, move = ''bomb'',
                   reason = ''You have already used your bomb!''\<rparr>))
   \<and> fst (validate_move s ''  ROCK '')
       = \<lparr>valid = True, move = ''rock'', reason = ''Valid move''\<rparr>"
proof -
  have bomb: "''bomb'' \<in> set move_names" by (simp add: move_names_def)
  have rock: "''rock'' \<in> set move_names" by (simp add: move_names_def)
  have 1: "fst (validate_move s ''  ROCK '')
             = \<lparr>valid = True, move = ''rock'', reason = ''Valid move''\<rparr>"
    using rock by (simp only: validate_move_unfold lower_strip_ROCK) simp
  show ?thesis
    unfolding Let_def
    using bomb 1 by (simp add: validate_move_unfold)
qed

theorem validate_move_result_witness:
  "fst (validate_move new_GameState ''Paper'')
     = \<lparr>valid = True, move = ''paper'', reason = ''Valid move''\<rparr>
   \<and> fst (validate_move new_GameState ''lizard'')
     = \<lparr>valid = False, move = ''lizard'',
        reason = ''Invalid move '' @ [CHR 0x27] @ ''lizard'' @ [CHR 0x27]
                  @ ''. Valid moves: rock, paper, scissors, bomb''\<rparr>
   \<and> fst (validate_move (new_GameState\<lparr>user_bomb_used := True\<rparr>) '' Bomb'')
     = \<lparr>valid = False, move = ''bomb'', reason = ''You have already used your bomb!''\<rparr>"
proof -
  have p: "lower (strip ''Paper'') = ''paper''"
    by (simp add: lower_def strip_def lower_char_def isspace_def char_of_eq_iff)
  have l: "lower (strip ''lizard'') = ''lizard''"
    by (simp add: lower_def strip_def lower_char_def isspace_def char_of_eq_iff)
  have b: "lower (strip '' Bomb'') = ''bomb''"
    by (simp add: lower_def strip_def lower_char_def isspace_def char_of_eq_iff)
  show ?thesis
    using validate_move_result [of "''Paper''" new_GameState]
      validate_move_result [of "''lizard''" new_GameState]
      validate_move_result [of "'' Bomb''" "new_GameState\<lparr>user_bomb_used := True\<rparr>"]
    unfolding Let_def p l b
    by (simp add: move_names_def)
qed

text \<open>
  C10. \<open>validate_move\<close> only reads the match state: on every input, accepted or
  rejected, the state after the call is the state before it.
\<close>

theorem validate_move_frame: "snd (validate_move s user_input) = s"
  by (simp add: validate_move_def Let_def)

end
